theory Spec2Isabelle
  imports Complex_Main
begin

section \<open>Strings and the regular expressions the plugin uses\<close>

text \<open>
  A JavaScript string is a sequence of UTF-16 code units. The model writes it as a
  \<open>string\<close>, one \<open>char\<close> per code unit, which covers the code units 0 to 255 (ASCII and
  Latin-1); package names and module paths are ASCII in practice.
\<close>

definition backslash :: char where
  "backslash = CHR 0x5C"

text \<open>\<^verbatim>\<open>s.startsWith(p)\<close>\<close>

fun startsWith :: "string \<Rightarrow> string \<Rightarrow> bool" where
  "startsWith s [] = True"
| "startsWith [] (p # ps) = False"
| "startsWith (c # cs) (p # ps) = (c = p \<and> startsWith cs ps)"

text \<open>All positions of a string, as the suffixes that start there (the end included).\<close>

fun tails :: "string \<Rightarrow> string list" where
  "tails [] = [[]]"
| "tails (c # cs) = (c # cs) # tails cs"

text \<open>\<^verbatim>\<open>s.includes(sub)\<close>\<close>

definition str_includes :: "string \<Rightarrow> string \<Rightarrow> bool" where
  "str_includes s sub = list_ex (\<lambda>t. startsWith t sub) (tails s)"

text \<open>
  The regular expressions of the source use literal characters, the classes \<^verbatim>\<open>[.]\<close> and
  \<^verbatim>\<open>[^/]\<close>, non-capturing groups, \<^verbatim>\<open>?\<close>, \<^verbatim>\<open>+\<close>, \<^verbatim>\<open>|\<close> and \<^verbatim>\<open>$\<close>. \<open>Cls neg cs\<close> is
  a character class with members \<open>cs\<close>, inverted when \<open>neg\<close> holds.
\<close>

datatype rx =
    Eps
  | Chr char
  | Cls bool "char list"
  | Cat rx rx
  | Alt rx rx
  | Opt rx
  | Plus rx
  | Eos

record RegExp =
  pattern :: rx
  ignoreCase :: bool

text \<open>
  Canonicalize of the language standard for a pattern with flag \<^verbatim>\<open>i\<close> and without flag
  \<^verbatim>\<open>u\<close>: the code unit is replaced by its upper-case form when that form is a single
  code unit. Among the code units 0 to 255 the ones that change are a to z and the
  Latin-1 letters 224 to 254 other than 247, each to the code unit 32 below it, which is
  the same bits with bit 5 cleared; 181 and 255 have upper-case forms beyond 255 that no
  other code unit below 256 shares, and 223 has none of one unit, so they stay.
\<close>

definition has_upper :: "char \<Rightarrow> bool" where
  "has_upper c =
     (let n = (of_char c :: nat)
      in (97 \<le> n \<and> n \<le> 122) \<or> (224 \<le> n \<and> n \<le> 254 \<and> n \<noteq> 247))"

definition minus_32 :: "char \<Rightarrow> char" where
  "minus_32 c = (case c of Char b0 b1 b2 b3 b4 b5 b6 b7 \<Rightarrow> Char b0 b1 b2 b3 b4 False b6 b7)"

definition canonicalize :: "char \<Rightarrow> char" where
  "canonicalize c = (if has_upper c then minus_32 c else c)"

definition chr_eq :: "bool \<Rightarrow> char \<Rightarrow> char \<Rightarrow> bool" where
  "chr_eq ic a b = (if ic then canonicalize a = canonicalize b else a = b)"

text \<open>
  One or more repetitions: \<open>f\<close> gives the ends of one repetition. A repetition that
  consumes nothing adds no new end, so as many rounds as the input has characters, and
  one more, reach every end.
\<close>

fun repeat1 :: "(string \<Rightarrow> string list) \<Rightarrow> nat \<Rightarrow> string \<Rightarrow> string list" where
  "repeat1 f 0 s = []"
| "repeat1 f (Suc n) s = concat (map (\<lambda>t. t # repeat1 f n t) (f s))"

text \<open>
  \<open>ends ic r s\<close> lists what is left of \<open>s\<close> after each way of matching \<open>r\<close> at its start.
  The expressions of the source have no capture, back reference or look-around, so
  whether \<^verbatim>\<open>test\<close> succeeds depends only on these ends.
\<close>

primrec ends :: "bool \<Rightarrow> rx \<Rightarrow> string \<Rightarrow> string list" where
  "ends ic Eps s = [s]"
| "ends ic (Chr c) s = (case s of [] \<Rightarrow> [] | x # xs \<Rightarrow> if chr_eq ic c x then [xs] else [])"
| "ends ic (Cls neg cs) s =
     (case s of [] \<Rightarrow> []
      | x # xs \<Rightarrow> if list_ex (\<lambda>c. chr_eq ic c x) cs \<noteq> neg then [xs] else [])"
| "ends ic (Cat a b) s = concat (map (ends ic b) (ends ic a s))"
| "ends ic (Alt a b) s = ends ic a s @ ends ic b s"
| "ends ic (Opt a) s = ends ic a s @ [s]"
| "ends ic (Plus a) s = repeat1 (ends ic a) (Suc (length s)) s"
| "ends ic Eos s = (if s = [] then [s] else [])"

text \<open>\<^verbatim>\<open>re.test(s)\<close> for an expression without the flags \<^verbatim>\<open>g\<close> and \<^verbatim>\<open>y\<close>: a match at some position.\<close>

definition RegExp_test :: "RegExp \<Rightarrow> string \<Rightarrow> bool" where
  "RegExp_test re s = list_ex (\<lambda>t. ends (ignoreCase re) (pattern re) t \<noteq> []) (tails s)"

text \<open>The expression that matches the characters of \<open>s\<close> in a row.\<close>

fun lit :: "string \<Rightarrow> rx" where
  "lit [] = Eps"
| "lit (c # cs) = Cat (Chr c) (lit cs)"

section \<open>Path normalizer\<close>

text \<open>\<^verbatim>\<open>s.replace(/%5C/g, '/')\<close>: every occurrence, left to right, without overlap.\<close>

fun replace_pct5C :: "string \<Rightarrow> string" where
  "replace_pct5C (a # b # c # s) =
     (if a = CHR ''%'' \<and> b = CHR ''5'' \<and> c = CHR ''C''
      then CHR ''/'' # replace_pct5C s else a # replace_pct5C (b # c # s))"
| "replace_pct5C s = s"

text \<open>\<^verbatim>\<open>id.replace(/\\/g, '/').replace(/%5C/g, '/')\<close>\<close>

definition normalizeId :: "string \<Rightarrow> string" where
  "normalizeId id' = replace_pct5C (map (\<lambda>c. if c = backslash then CHR ''/'' else c) id')"

section \<open>Pattern compiler\<close>

text \<open>
  A configured pattern is a string or a regular expression of the user. The user's
  expression is any JavaScript expression, so it is kept as its \<^verbatim>\<open>test\<close>, a predicate
  (an expression with flag \<^verbatim>\<open>g\<close> or \<^verbatim>\<open>y\<close>, whose \<^verbatim>\<open>test\<close> depends on earlier calls, is not
  modelled).
\<close>

datatype PackagePattern = Str string | Rx "string \<Rightarrow> bool"

text \<open>The characters of the class \<^verbatim>\<open>[.*+?^${}()|[\]\\]\<close>.\<close>

definition syntax_chars :: "char list" where
  "syntax_chars = ''.*+?^${}()|[]'' @ [backslash]"

text \<open>\<^verbatim>\<open>pkg.replace(/[.*+?^${}()|[\]\\]/g, '\\$&')\<close>: a backslash before each such character.\<close>

definition escapeRegExp :: "string \<Rightarrow> string" where
  "escapeRegExp pkg =
     concat (map (\<lambda>c. if c \<in> set syntax_chars then [backslash, c] else [c]) pkg)"

text \<open>
  The characters that a pattern source denotes when it is read as a sequence of pattern
  characters and identity escapes: a backslash stands for the character after it.
\<close>

fun pattern_chars :: "string \<Rightarrow> string" where
  "pattern_chars (a # b # s) =
     (if a = backslash then b # pattern_chars s else a # pattern_chars (b # s))"
| "pattern_chars s = s"

text \<open>
  \<open>makeNodeModulesPattern\<close>. The template
  \<^verbatim>\<open>/node_modules/(?:[.]pnpm/)?(?:${base})(?:/|@|$)\<close> with flag \<^verbatim>\<open>i\<close> is written as the
  expression it denotes; the part that comes from \<open>pkg\<close> is the escaped text, read back
  as pattern characters.
\<close>

definition makeNodeModulesPattern :: "PackagePattern \<Rightarrow> string \<Rightarrow> bool" where
  "makeNodeModulesPattern pkg =
     (case pkg of
        Rx t \<Rightarrow> (\<lambda>id'. t id')
      | Str p \<Rightarrow>
          (let scoped = startsWith p ''@'';
               escaped = escapeRegExp p;
               base = (if scoped then lit (pattern_chars escaped)
                       else Cat (Opt (Cat (Chr CHR ''@'')
                                       (Cat (Plus (Cls True ''/'')) (Chr CHR ''/''))))
                                (lit (pattern_chars escaped)));
               re = \<lparr> pattern =
                        Cat (lit ''/node_modules/'')
                          (Cat (Opt (Cat (Cls False ''.'') (lit ''pnpm/'')))
                            (Cat base (Alt (Chr CHR ''/'') (Alt (Chr CHR ''@'') Eos)))),
                      ignoreCase = True \<rparr>
           in (\<lambda>id'. RegExp_test re id')))"

section \<open>Data model\<close>

datatype SplitStrategy = aggressive | balanced | conservative

text \<open>
  An object of type \<^verbatim>\<open>Record<string, ...>\<close> is written as the list of its property
  declarations, in the order in which they are written. \<^verbatim>\<open>Object.entries\<close> does not keep
  that order for every name: the language standard lists first the names that are array
  indices (the decimal numerals of the integers from 0 to 4294967294, which is
  2^32 - 2, without leading zeros), in ascending numeric order, and then the other names in the order of their
  creation. A name declared twice keeps its first place and its last value.
\<close>

definition is_digit :: "char \<Rightarrow> bool" where
  "is_digit c = (48 \<le> (of_char c :: int) \<and> (of_char c :: int) \<le> 57)"

definition digits_value :: "string \<Rightarrow> int" where
  "digits_value s = foldl (\<lambda>n c. 10 * n + (of_char c - 48)) 0 s"

definition is_array_index :: "string \<Rightarrow> bool" where
  "is_array_index s =
     (s \<noteq> [] \<and> list_all is_digit s \<and> (hd s \<noteq> CHR ''0'' \<or> s = ''0'')
      \<and> digits_value s < 4294967295)"

definition Object_entries :: "(string \<times> 'a) list \<Rightarrow> (string \<times> 'a) list" where
  "Object_entries props =
     (let created = rev (remdups (rev (map fst props)));
          indices = sort_key digits_value (filter is_array_index created);
          others = filter (\<lambda>k. \<not> is_array_index k) created
      in concat (map (\<lambda>k. case map_of (rev props) k of Some v \<Rightarrow> [(k, v)] | None \<Rightarrow> [])
                  (indices @ others)))"

text \<open>
  \<open>OPSOptions\<close>: every field is optional. \<open>groups\<close> is the object as it is declared.
  \<open>minSize\<close> is a number that no function reads.
\<close>

record OPSOptions =
  override :: "bool option"
  strategy :: "SplitStrategy option"
  minSize :: "real option"
  groups :: "(string \<times> PackagePattern list) list option"

record GroupMatcher =
  name :: string
  test :: "string \<Rightarrow> bool"
  priority :: int

definition COMMON_LARGE_LIBS :: "(string \<times> string list) list" where
  "COMMON_LARGE_LIBS =
    [(''react'', [''react'', ''react-dom'']),
     (''vue'', [''vue'', ''@vue/'']),
     (''angular'', [''@angular/'']),
     (''svelte'', [''svelte'']),
     (''redux'', [''redux'', ''react-redux'', ''@reduxjs/toolkit'']),
     (''mobx'', [''mobx'', ''mobx-react'']),
     (''zustand'', [''zustand'']),
     (''pinia'', [''pinia'']),
     (''react-router'', [''react-router'', ''react-router-dom'']),
     (''vue-router'', [''vue-router'']),
     (''antd'', [''antd'', ''@ant-design/'']),
     (''element-plus'', [''element-plus'']),
     (''element-ui'', [''element-ui'']),
     (''naive-ui'', [''naive-ui'']),
     (''arco-design'', [''@arco-design/'']),
     (''material-ui'', [''@mui/'', ''@material-ui/'']),
     (''chakra'', [''@chakra-ui/'']),
     (''lodash'', [''lodash'', ''lodash-es'']),
     (''moment'', [''moment'']),
     (''dayjs'', [''dayjs'']),
     (''axios'', [''axios'']),
     (''echarts'', [''echarts'']),
     (''d3'', [''d3'']),
     (''chart.js'', [''chart.js'']),
     (''quill'', [''quill'']),
     (''three'', [''three'']),
     (''babylon'', [''@babylonjs/''])]"

definition MEDIUM_LIB_GROUPS :: "(string \<times> string list) list" where
  "MEDIUM_LIB_GROUPS =
    [(''utils'', [''@vueuse/'', ''ahooks'', ''react-use'']),
     (''icons'', [''@iconify/'', ''@ant-design/icons'', ''@heroicons/'', ''lucide-react'']),
     (''form'', [''react-hook-form'', ''formik'', ''async-validator'']),
     (''i18n'', [''i18next'', ''react-i18next'', ''vue-i18n''])]"

section \<open>Matcher builder\<close>

text \<open>
  \<^verbatim>\<open>xs.sort(cmp)\<close>. The language standard makes the sort stable, so for a comparator that
  orders consistently the result is fixed: each element goes before the first later
  element that \<open>cmp\<close> does not put ahead of it.
\<close>

fun insert_by :: "('a \<Rightarrow> 'a \<Rightarrow> int) \<Rightarrow> 'a \<Rightarrow> 'a list \<Rightarrow> 'a list" where
  "insert_by cmp x [] = [x]"
| "insert_by cmp x (y # ys) = (if cmp x y \<le> 0 then x # y # ys else y # insert_by cmp x ys)"

definition Array_sort :: "('a \<Rightarrow> 'a \<Rightarrow> int) \<Rightarrow> 'a list \<Rightarrow> 'a list" where
  "Array_sort cmp xs = foldr (insert_by cmp) xs []"

text \<open>\<^verbatim>\<open>typeof a === 'string' ? a.length : 0\<close>\<close>

definition pattern_length :: "PackagePattern \<Rightarrow> int" where
  "pattern_length a = (case a of Str s \<Rightarrow> int (length s) | Rx t \<Rightarrow> 0)"

text \<open>\<^verbatim>\<open>{ name, test: (id) => testers.some((t) => t(id)), priority }\<close>\<close>

definition some_tester :: "string \<Rightarrow> (string \<Rightarrow> bool) list \<Rightarrow> int \<Rightarrow> GroupMatcher" where
  "some_tester n testers p =
     \<lparr> name = n, test = (\<lambda>id'. list_ex (\<lambda>t. t id') testers), priority = p \<rparr>"

text \<open>
  Custom groups (priority 100), in the order of \<^verbatim>\<open>Object.entries(options.groups)\<close>: a group
  with no pattern is skipped.
\<close>

definition custom_matchers ::
  "(string \<times> PackagePattern list) list option \<Rightarrow> GroupMatcher list" where
  "custom_matchers gs =
     (case gs of
        None \<Rightarrow> []
      | Some declared \<Rightarrow>
          concat (map (\<lambda>(n, patterns).
            if patterns \<noteq> [] then
              (let sorted = Array_sort (\<lambda>a b. pattern_length b - pattern_length a) patterns;
                   testers = map makeNodeModulesPattern sorted
               in [some_tester n testers 100])
            else []) (Object_entries declared)))"

text \<open>Plugin-detected groups (priority 90).\<close>

definition detectedGroups :: "string set \<Rightarrow> (string \<times> string list) list" where
  "detectedGroups pluginHints =
     (if ''vue'' \<in> pluginHints then [(''vue'', [''vue'', ''@vue/''])] else []) @
     (if ''vueuse'' \<in> pluginHints then [(''vueuse'', [''@vueuse/''])] else [])"

definition detected_matchers :: "string set \<Rightarrow> GroupMatcher list" where
  "detected_matchers pluginHints =
     map (\<lambda>(n, patterns). some_tester n (map (\<lambda>p. makeNodeModulesPattern (Str p)) patterns) 90)
       (detectedGroups pluginHints)"

text \<open>\<^verbatim>\<open>p.replace(/\//g, '')\<close> and \<^verbatim>\<open>p.replace(/\//g, '').replace(/\*/g, '')\<close>\<close>

definition strip_slashes :: "string \<Rightarrow> string" where
  "strip_slashes p = filter (\<lambda>c. c \<noteq> CHR ''/'') p"

definition strip_stars :: "string \<Rightarrow> string" where
  "strip_stars p = filter (\<lambda>c. c \<noteq> CHR ''*'') p"

text \<open>\<open>hasAny\<close> of the large libraries and of the medium libraries.\<close>

definition hasAny :: "string list \<Rightarrow> string list \<Rightarrow> bool" where
  "hasAny projectDeps patterns =
     list_ex (\<lambda>p. let pkgName = strip_slashes p
                  in list_ex (\<lambda>dep. str_includes dep pkgName) projectDeps) patterns"

definition hasAny_medium :: "string list \<Rightarrow> string list \<Rightarrow> bool" where
  "hasAny_medium projectDeps patterns =
     list_ex (\<lambda>p. list_ex (\<lambda>dep. str_includes dep (strip_stars (strip_slashes p))) projectDeps)
       patterns"

definition preset_matcher :: "string \<Rightarrow> string list \<Rightarrow> int \<Rightarrow> GroupMatcher" where
  "preset_matcher groupName patterns p =
     some_tester groupName (map (\<lambda>q. makeNodeModulesPattern (Str q)) patterns) p"

definition veryLargeLibs :: "string list" where
  "veryLargeLibs =
     [''react'', ''vue'', ''angular'', ''antd'', ''element-plus'', ''echarts'', ''three'']"

text \<open>
  Strategy-based splitting. \<open>projectDeps\<close> is the set of dependency names in the order
  in which the set is iterated.
\<close>

definition strategy_matchers :: "SplitStrategy \<Rightarrow> string list \<Rightarrow> GroupMatcher list" where
  "strategy_matchers strat projectDeps =
     (case strat of
        aggressive \<Rightarrow>
          concat (map (\<lambda>dep.
            if \<not> startsWith dep ''@types/''
            then [\<lparr> name = dep, test = makeNodeModulesPattern (Str dep), priority = 50 \<rparr>]
            else []) projectDeps)
      | balanced \<Rightarrow>
          concat (map (\<lambda>(groupName, patterns).
            if hasAny projectDeps patterns then [preset_matcher groupName patterns 80] else [])
            COMMON_LARGE_LIBS) @
          concat (map (\<lambda>(groupName, patterns).
            if hasAny_medium projectDeps patterns then [preset_matcher groupName patterns 70]
            else []) MEDIUM_LIB_GROUPS)
      | conservative \<Rightarrow>
          concat (map (\<lambda>(groupName, patterns).
            if groupName \<in> set veryLargeLibs then
              (if hasAny projectDeps patterns then [preset_matcher groupName patterns 80]
               else [])
            else []) COMMON_LARGE_LIBS))"

text \<open>The array \<open>matchers\<close> as it stands before the final sort.\<close>

definition collected_matchers ::
  "OPSOptions \<Rightarrow> string list \<Rightarrow> string set \<Rightarrow> GroupMatcher list" where
  "collected_matchers options projectDeps pluginHints =
     (let strat = (case strategy options of Some s \<Rightarrow> s | None \<Rightarrow> balanced)
      in custom_matchers (groups options) @ detected_matchers pluginHints @
         strategy_matchers strat projectDeps)"

definition buildGroupMatchers ::
  "OPSOptions \<Rightarrow> string list \<Rightarrow> string set \<Rightarrow> GroupMatcher list" where
  "buildGroupMatchers options projectDeps pluginHints =
     Array_sort (\<lambda>a b. priority b - priority a)
       (collected_matchers options projectDeps pluginHints)"

section \<open>Resolver\<close>

definition node_modules_re :: RegExp where
  "node_modules_re = \<lparr> pattern = lit ''/node_modules/'', ignoreCase = False \<rparr>"

text \<open>The loop over \<open>groupsRef\<close>, and the fallback after it.\<close>

fun first_group :: "GroupMatcher list \<Rightarrow> string \<Rightarrow> string" where
  "first_group [] nid = ''vendor''"
| "first_group (g # gs) nid = (if test g nid then name g else first_group gs nid)"

text \<open>\<open>manualChunks\<close>; \<open>None\<close> is \<^verbatim>\<open>undefined\<close>.\<close>

definition manualChunks :: "GroupMatcher list \<Rightarrow> string \<Rightarrow> string option" where
  "manualChunks groupsRef id' =
     (let nid = normalizeId id'
      in if \<not> RegExp_test node_modules_re nid then None
         else Some (first_group groupsRef nid))"

text \<open>The defaults that \<open>OPS\<close> fills in.\<close>

definition OPS_options :: "OPSOptions \<Rightarrow> OPSOptions" where
  "OPS_options opts =
     \<lparr> override = Some (case override opts of Some b \<Rightarrow> b | None \<Rightarrow> False),
       strategy = Some (case strategy opts of Some s \<Rightarrow> s | None \<Rightarrow> balanced),
       minSize = Some (case minSize opts of Some m \<Rightarrow> m | None \<Rightarrow> 50),
       groups = groups opts \<rparr>"

text \<open>
  \<open>configResolved\<close>: the hints come from the names of the resolved plugins, and the
  result is stored in \<open>groupsRef\<close>.
\<close>

definition plugin_hints :: "string set \<Rightarrow> string set" where
  "plugin_hints pluginNames =
     (if ''vite:vue'' \<in> pluginNames \<or> ''vite:vue-jsx'' \<in> pluginNames then {''vue''} else {}) \<union>
     (if ''unplugin-vue-components'' \<in> pluginNames then {''vueuse''} else {})"

definition configResolved :: "OPSOptions \<Rightarrow> string list \<Rightarrow> string set \<Rightarrow> GroupMatcher list" where
  "configResolved opts projectDeps pluginNames =
     buildGroupMatchers (OPS_options opts) projectDeps (plugin_hints pluginNames)"


text \<open>The options \<^verbatim>\<open>{}\<close>, the default argument of \<open>OPS\<close>.\<close>

definition empty_options :: OPSOptions where
  "empty_options = \<lparr> override = None, strategy = None, minSize = None, groups = None \<rparr>"

section \<open>Strings and expressions: basic facts\<close>



lemma startsWith_iff: "startsWith s l \<longleftrightarrow> (\<exists>v. s = l @ v)"
  by (induction s l rule: startsWith.induct) auto

lemma list_ex_tails: "list_ex P (tails s) \<longleftrightarrow> (\<exists>u v. s = u @ v \<and> P v)"
proof (induction s)
  case Nil
  show ?case by simp
next
  case (Cons c s)
  show ?case
  proof
    assume "list_ex P (tails (c # s))"
    then consider "P (c # s)" | "list_ex P (tails s)" by auto
    then show "\<exists>u v. c # s = u @ v \<and> P v"
    proof cases
      case 1
      then have "c # s = [] @ (c # s) \<and> P (c # s)" by simp
      then show ?thesis by blast
    next
      case 2
      then obtain u v where "s = u @ v" "P v" using Cons.IH by blast
      then have "c # s = (c # u) @ v \<and> P v" by simp
      then show ?thesis by blast
    qed
  next
    assume "\<exists>u v. c # s = u @ v \<and> P v"
    then obtain u v where uv: "c # s = u @ v" "P v" by blast
    show "list_ex P (tails (c # s))"
    proof (cases u)
      assume "u = []"
      then have "P (c # s)" using uv by simp
      then show ?thesis by simp
    next
      fix d u' assume "u = d # u'"
      then have "s = u' @ v" using uv by simp
      then have "list_ex P (tails s)" using uv(2) Cons.IH by blast
      then show ?thesis by simp
    qed
  qed
qed

lemma ends_lit_exact: "ends False (lit l) s = (if startsWith s l then [drop (length l) s] else [])"
proof (induction l arbitrary: s)
  case Nil
  show ?case by simp
next
  case (Cons c l)
  show ?case by (cases s) (simp_all add: chr_eq_def Cons.IH)
qed

lemma node_modules_test_iff:
  "RegExp_test node_modules_re s \<longleftrightarrow> (\<exists>u v. s = u @ ''/node_modules/'' @ v)"
proof -
  have "RegExp_test node_modules_re s \<longleftrightarrow>
      list_ex (\<lambda>t. startsWith t ''/node_modules/'') (tails s)"
    unfolding RegExp_test_def node_modules_re_def
    by (simp only: RegExp.simps ends_lit_exact) simp
  also have "\<dots> \<longleftrightarrow> (\<exists>u v. s = u @ v \<and> startsWith v ''/node_modules/'')"
    by (rule list_ex_tails)
  also have "\<dots> \<longleftrightarrow> (\<exists>u v. s = u @ ''/node_modules/'' @ v)"
    unfolding startsWith_iff by blast
  finally show ?thesis .
qed


section \<open>The sort\<close>

lemma set_insert_by: "set (insert_by cmp x ys) = insert x (set ys)"
  by (induction ys) auto

lemma set_Array_sort: "set (Array_sort cmp xs) = set xs"
  by (induction xs) (simp_all add: Array_sort_def set_insert_by)

lemma length_insert_by: "length (insert_by cmp x ys) = Suc (length ys)"
  by (induction ys) auto

lemma length_Array_sort: "length (Array_sort cmp xs) = length xs"
  by (induction xs) (simp_all add: Array_sort_def length_insert_by)

lemma Array_sort_Cons: "Array_sort cmp (x # xs) = insert_by cmp x (Array_sort cmp xs)"
  by (simp add: Array_sort_def)

lemma Array_sort_Nil: "Array_sort cmp [] = []"
  by (simp add: Array_sort_def)

text \<open>Comparators of the form \<open>k b - k a\<close>: descending by key.\<close>

lemma sorted_insert_by_key:
  "sorted_wrt (\<lambda>a b. k b \<le> k a) ys \<Longrightarrow>
   sorted_wrt (\<lambda>a b. k b \<le> k a) (insert_by (\<lambda>a b. k b - k a) x ys)"
  for k :: "'a \<Rightarrow> int"
proof (induction ys)
  case Nil
  show ?case by simp
next
  case (Cons y ys)
  show ?case
  proof (cases "k y \<le> k x")
    case True
    then have "\<forall>z\<in>set ys. k z \<le> k x" using Cons.prems by auto
    then show ?thesis using True Cons.prems by simp
  next
    case False
    then show ?thesis using Cons by (auto simp: set_insert_by)
  qed
qed

lemma sorted_Array_sort_key:
  "sorted_wrt (\<lambda>a b. k b \<le> k a) (Array_sort (\<lambda>a b. k b - k a) xs)"
  for k :: "'a \<Rightarrow> int"
  by (induction xs) (simp_all add: Array_sort_Nil Array_sort_Cons sorted_insert_by_key)

lemma filter_insert_by_other:
  "k x \<noteq> p \<Longrightarrow> filter (\<lambda>g. k g = p) (insert_by cmp x ys) = filter (\<lambda>g. k g = p) ys"
  by (induction ys) auto

lemma filter_insert_by_same:
  "sorted_wrt (\<lambda>a b. k b \<le> k a) ys \<Longrightarrow>
   filter (\<lambda>g. k g = k x) (insert_by (\<lambda>a b. k b - k a) x ys) = x # filter (\<lambda>g. k g = k x) ys"
  for k :: "'a \<Rightarrow> int"
proof (induction ys)
  case Nil
  show ?case by simp
next
  case (Cons y ys)
  show ?case
  proof (cases "k y \<le> k x")
    case True
    then show ?thesis by simp
  next
    case False
    then have "k y \<noteq> k x" by simp
    then show ?thesis using False Cons by simp
  qed
qed

lemma stable_Array_sort_key:
  "filter (\<lambda>g. k g = p) (Array_sort (\<lambda>a b. k b - k a) xs) = filter (\<lambda>g. k g = p) xs"
  for k :: "'a \<Rightarrow> int"
proof (induction xs)
  case Nil
  show ?case by (simp add: Array_sort_Nil)
next
  case (Cons x xs)
  show ?case
  proof (cases "k x = p")
    case True
    then show ?thesis
      using filter_insert_by_same [OF sorted_Array_sort_key, of k x xs] Cons.IH
      by (simp add: Array_sort_Cons)
  next
    case False
    then show ?thesis using Cons.IH by (simp add: Array_sort_Cons filter_insert_by_other)
  qed
qed

lemma Array_sort_top:
  "\<forall>y\<in>set xs. k y \<le> k x \<Longrightarrow>
   Array_sort (\<lambda>a b. k b - k a) (x # xs) = x # Array_sort (\<lambda>a b. k b - k a) xs"
  for k :: "'a \<Rightarrow> int"
proof -
  assume h: "\<forall>y\<in>set xs. k y \<le> k x"
  show ?thesis
  proof (cases "Array_sort (\<lambda>a b. k b - k a) xs")
    case Nil
    then show ?thesis by (simp add: Array_sort_Cons)
  next
    case (Cons y ys)
    then have "y \<in> set xs" using set_Array_sort [of "\<lambda>a b. k b - k a" xs] by auto
    then have "k y \<le> k x" using h by blast
    then show ?thesis using Cons by (simp add: Array_sort_Cons)
  qed
qed

section \<open>The builder and the resolver: basic facts\<close>

lemma str_includes_iff: "str_includes s sub \<longleftrightarrow> (\<exists>u v. s = u @ sub @ v)"
  unfolding str_includes_def list_ex_tails startsWith_iff by blast

lemma hasAny_iff:
  "hasAny projectDeps patterns \<longleftrightarrow>
     (\<exists>p\<in>set patterns. \<exists>dep\<in>set projectDeps. \<exists>u v. dep = u @ strip_slashes p @ v)"
  by (simp add: hasAny_def list_ex_iff str_includes_iff)

lemma hasAny_medium_iff:
  "hasAny_medium projectDeps patterns \<longleftrightarrow>
     (\<exists>p\<in>set patterns. \<exists>dep\<in>set projectDeps.
        \<exists>u v. dep = u @ strip_stars (strip_slashes p) @ v)"
  by (simp add: hasAny_medium_def list_ex_iff str_includes_iff)

text \<open>The groups of a preset strategy depend on the dependencies as a set only.\<close>

lemma strategy_matchers_set:
  "strat \<noteq> aggressive \<Longrightarrow> set a = set b \<Longrightarrow>
   strategy_matchers strat a = strategy_matchers strat b"
  by (cases strat)
     (simp_all add: strategy_matchers_def hasAny_iff hasAny_medium_iff cong: if_cong)

lemma priority_detected_matchers: "g \<in> set (detected_matchers h) \<Longrightarrow> priority g = 90"
  by (auto simp: detected_matchers_def some_tester_def)

lemma priority_strategy_matchers: "g \<in> set (strategy_matchers s d) \<Longrightarrow> priority g \<le> 80"
  by (cases s)
     (auto simp: strategy_matchers_def preset_matcher_def some_tester_def split: if_splits)

lemma Object_entries_single: "Object_entries [(n, v)] = [(n, v)]"
  by (simp add: Object_entries_def)

lemma priority_custom_matchers: "g \<in> set (custom_matchers c) \<Longrightarrow> priority g = 100"
  by (cases c) (auto simp: custom_matchers_def some_tester_def Let_def split: if_splits)

lemma collected_without_groups:
  "collected_matchers (options\<lparr>groups := None\<rparr>) d h =
     detected_matchers h @
     strategy_matchers (case strategy options of Some s \<Rightarrow> s | None \<Rightarrow> balanced) d"
  by (simp add: collected_matchers_def custom_matchers_def)

lemma priority_without_groups:
  "g \<in> set (collected_matchers (options\<lparr>groups := None\<rparr>) d h) \<Longrightarrow> priority g \<le> 100"
  unfolding collected_without_groups
  using priority_detected_matchers [of g h] priority_strategy_matchers [of g _ d]
  by fastforce

text \<open>A single custom group with a pattern comes first in the list.\<close>

lemma build_single_custom:
  assumes "ps \<noteq> []"
  shows "buildGroupMatchers (options\<lparr>groups := Some [(n, ps)]\<rparr>) d h =
     some_tester n
       (map makeNodeModulesPattern
          (Array_sort (\<lambda>a b. pattern_length b - pattern_length a) ps)) 100
     # buildGroupMatchers (options\<lparr>groups := None\<rparr>) d h"
proof -
  let ?g = "some_tester n
       (map makeNodeModulesPattern
          (Array_sort (\<lambda>a b. pattern_length b - pattern_length a) ps)) 100"
  let ?rest = "collected_matchers (options\<lparr>groups := None\<rparr>) d h"
  have split: "collected_matchers (options\<lparr>groups := Some [(n, ps)]\<rparr>) d h = ?g # ?rest"
    using assms
    by (simp add: collected_matchers_def custom_matchers_def Object_entries_single)
  have "priority ?g = 100" by (simp add: some_tester_def)
  then have "\<forall>y\<in>set ?rest. priority y \<le> priority ?g"
    using priority_without_groups [of _ options d h] by simp
  then show ?thesis
    unfolding buildGroupMatchers_def split by (rule Array_sort_top)
qed

lemma manualChunks_Cons:
  "manualChunks (g # gs) id' =
     (if RegExp_test node_modules_re (normalizeId id') \<and> test g (normalizeId id')
      then Some (name g) else manualChunks gs id')"
  by (simp add: manualChunks_def Let_def)



lemma test_some_tester: "test (some_tester n ts p) x = list_ex (\<lambda>t. t x) ts"
  by (simp add: some_tester_def)

lemma name_some_tester: "name (some_tester n ts p) = n"
  by (simp add: some_tester_def)

lemma Array_sort_same_key:
  "\<forall>x\<in>set xs. k x = p \<Longrightarrow> Array_sort (\<lambda>a b. k b - k a) xs = xs"
  for k :: "'a \<Rightarrow> int"
proof -
  assume h: "\<forall>x\<in>set xs. k x = p"
  have a: "filter (\<lambda>g. k g = p) xs = xs"
    by (rule filter_True) (rule h)
  have h': "\<forall>x\<in>set (Array_sort (\<lambda>a b. k b - k a) xs). k x = p"
    unfolding set_Array_sort by (rule h)
  have b: "filter (\<lambda>g. k g = p) (Array_sort (\<lambda>a b. k b - k a) xs) =
      Array_sort (\<lambda>a b. k b - k a) xs"
    by (rule filter_True) (rule h')
  show ?thesis using stable_Array_sort_key [of k p xs] unfolding a b .
qed

lemma detected_matchers_empty: "detected_matchers {} = []"
  by (simp add: detected_matchers_def detectedGroups_def)

lemma priority_aggressive: "g \<in> set (strategy_matchers aggressive d) \<Longrightarrow> priority g = 50"
  by (auto simp: strategy_matchers_def split: if_splits)

lemma name_aggressive:
  "map name (strategy_matchers aggressive d) = filter (\<lambda>dep. \<not> startsWith dep ''@types/'') d"
  by (induction d) (auto simp: strategy_matchers_def)

lemma build_aggressive_only:
  "buildGroupMatchers (options\<lparr>strategy := Some aggressive, groups := None\<rparr>) d {} =
     strategy_matchers aggressive d"
  unfolding buildGroupMatchers_def
  by (simp add: collected_matchers_def custom_matchers_def detected_matchers_empty
      Array_sort_same_key [where p = 50] priority_aggressive)

text \<open>The builder reads the strategy and the groups only, and under a preset strategy
  the dependencies as a set.\<close>

lemma build_reads_strategy_groups:
  "strategy o1 = strategy o2 \<Longrightarrow> groups o1 = groups o2 \<Longrightarrow>
   buildGroupMatchers o1 d h = buildGroupMatchers o2 d h"
  by (simp add: buildGroupMatchers_def collected_matchers_def)

lemma build_preset_set:
  assumes "(case strategy o1 of Some s \<Rightarrow> s | None \<Rightarrow> balanced) = strat"
    and "(case strategy o2 of Some s \<Rightarrow> s | None \<Rightarrow> balanced) = strat"
    and "strat \<noteq> aggressive" and "groups o1 = groups o2" and "set d1 = set d2"
  shows "buildGroupMatchers o1 d1 h = buildGroupMatchers o2 d2 h"
  using assms strategy_matchers_set [of strat d1 d2]
  by (simp add: buildGroupMatchers_def collected_matchers_def)

text \<open>The names of the groups of each stage, in the order of their table.\<close>

lemma names_of_selected:
  assumes "\<And>n ps. map name (g n ps) = (if P n ps then [n] else [])"
  shows "map name (concat (map (\<lambda>(n, ps). g n ps) xs)) =
         map fst (filter (\<lambda>(n, ps). P n ps) xs)"
proof (induction xs)
  case Nil
  show ?case by simp
next
  case (Cons x xs)
  obtain n ps where x: "x = (n, ps)" by (cases x)
  have "map name (g n ps @ concat (map (\<lambda>(n, ps). g n ps) xs)) =
      (if P n ps then [n] else []) @ map fst (filter (\<lambda>(n, ps). P n ps) xs)"
    unfolding map_append assms Cons.IH ..
  then show ?case by (simp add: x)
qed

lemma name_preset_matcher: "name (preset_matcher n ps p) = n"
  by (simp add: preset_matcher_def some_tester_def)

lemma names_conservative:
  "map name (strategy_matchers conservative d) =
     map fst (filter (\<lambda>(n, ps). n \<in> set veryLargeLibs \<and> hasAny d ps) COMMON_LARGE_LIBS)"
  unfolding strategy_matchers_def SplitStrategy.case
  by (rule names_of_selected) (simp add: name_preset_matcher)

lemma names_balanced:
  "map name (strategy_matchers balanced d) =
     map fst (filter (\<lambda>(n, ps). hasAny d ps) COMMON_LARGE_LIBS) @
     map fst (filter (\<lambda>(n, ps). hasAny_medium d ps) MEDIUM_LIB_GROUPS)"
  unfolding strategy_matchers_def SplitStrategy.case map_append
  by (intro arg_cong2 [where f = append] names_of_selected) (simp_all add: name_preset_matcher)

lemma names_detected: "map name (detected_matchers h) = map fst (detectedGroups h)"
  by (simp add: detected_matchers_def some_tester_def case_prod_unfold)

section \<open>The order of the entries of an object\<close>

lemma map_of_rev_distinct:
  "distinct (map fst props) \<Longrightarrow> (k, v) \<in> set props \<Longrightarrow> map_of (rev props) k = Some v"
  by (rule map_of_is_SomeI) (simp_all add: rev_map [symmetric])

lemma entries_of_keys:
  assumes "distinct (map fst props)"
  shows "concat (map (\<lambda>k. case map_of (rev props) k of Some v \<Rightarrow> [(k, v)] | None \<Rightarrow> [])
           (map fst props)) = props"
proof -
  have "concat (map (\<lambda>k. case map_of (rev props) k of Some v \<Rightarrow> [(k, v)] | None \<Rightarrow> [])
           (map fst qs)) = qs" if "set qs \<subseteq> set props" for qs
    using that
  proof (induction qs)
    case Nil
    show ?case by simp
  next
    case (Cons q qs)
    obtain k v where q: "q = (k, v)" by (cases q)
    have "map_of (rev props) k = Some v"
      using Cons.prems assms by (intro map_of_rev_distinct) (auto simp: q)
    then show ?case using Cons by (simp add: q)
  qed
  then show ?thesis by simp
qed

lemma Object_entries_plain:
  assumes "distinct (map fst props)" and "\<forall>k\<in>set (map fst props). \<not> is_array_index k"
  shows "Object_entries props = props"
proof -
  have a: "rev (remdups (rev (map fst props))) = map fst props"
    using assms(1) by (simp add: distinct_remdups_id)
  have b: "filter is_array_index (map fst props) = []"
    using assms(2) by (simp add: filter_empty_conv)
  have c: "filter (\<lambda>k. \<not> is_array_index k) (map fst props) = map fst props"
    by (rule filter_True) (use assms(2) in blast)
  show ?thesis
    unfolding Object_entries_def Let_def a b c
    using entries_of_keys [OF assms(1)] by simp
qed

lemma Object_entries_keys:
  "map fst (Object_entries props) =
     sort_key digits_value (filter is_array_index (rev (remdups (rev (map fst props))))) @
     filter (\<lambda>k. \<not> is_array_index k) (rev (remdups (rev (map fst props))))"
proof -
  have "map fst (concat (map (\<lambda>k. case map_of (rev props) k of Some v \<Rightarrow> [(k, v)] | None \<Rightarrow> [])
      ks)) = ks" if "set ks \<subseteq> fst ` set props" for ks
    using that
  proof (induction ks)
    case Nil
    show ?case by simp
  next
    case (Cons k ks)
    then have "k \<in> fst ` set (rev props)" by simp
    then obtain v where "map_of (rev props) k = Some v"
      by (metis map_of_eq_None_iff not_Some_eq)
    then show ?case using Cons by simp
  qed
  then show ?thesis unfolding Object_entries_def Let_def by auto
qed

lemma large_table_keeps_its_order: "Object_entries COMMON_LARGE_LIBS = COMMON_LARGE_LIBS"
  by code_simp

lemma medium_table_keeps_its_order: "Object_entries MEDIUM_LIB_GROUPS = MEDIUM_LIB_GROUPS"
  by code_simp

lemma detectedGroups_keep_their_order:
  "Object_entries (detectedGroups h) = detectedGroups h"
  by (rule Object_entries_plain) (auto simp: detectedGroups_def is_array_index_def is_digit_def)

lemma names_custom:
  "map name (custom_matchers (Some declared)) =
     map fst (filter (\<lambda>e. snd e \<noteq> []) (Object_entries declared))"
proof -
  have "map name (concat (map (\<lambda>(n, patterns).
            if patterns \<noteq> [] then
              (let sorted = Array_sort (\<lambda>a b. pattern_length b - pattern_length a) patterns;
                   testers = map makeNodeModulesPattern sorted
               in [some_tester n testers 100])
            else []) es)) = map fst (filter (\<lambda>e. snd e \<noteq> []) es)" for es
    by (induction es) (auto simp: some_tester_def)
  then show ?thesis by (simp add: custom_matchers_def)
qed

section \<open>Literals under the flag for letter case\<close>












section \<open>Claims\<close>

text \<open>
  C1. The claim: the predicate compiled from the literal \<^verbatim>\<open>@vue/\<close> is true on
  \<^verbatim>\<open>/proj/node_modules/@vue/reactivity/dist/index.js\<close> and on the nested-store path of the
  same package. In the code the literal already ends with the separator, and the
  expression asks for a second separator, an \<^verbatim>\<open>@\<close> or the end of the path right after it:
  the predicate is false on both paths, while the literal \<^verbatim>\<open>@vue\<close> without the separator
  matches. So with the plugin \<^verbatim>\<open>vite:vue\<close> and the dependency \<^verbatim>\<open>vue\<close>, where both the
  detected group and the preset group \<^verbatim>\<open>vue\<close> carry the pattern \<^verbatim>\<open>@vue/\<close>, the module
  falls through to \<^verbatim>\<open>vendor\<close>.
\<close>

theorem scoped_slash_literal_matches_neither_path:
  "\<not> makeNodeModulesPattern (Str ''@vue/'') ''/proj/node_modules/@vue/reactivity/dist/index.js''
   \<and> \<not> makeNodeModulesPattern (Str ''@vue/'')
        ''/proj/node_modules/.pnpm/@vue+reactivity@3.2.0/node_modules/@vue/reactivity/dist/index.js''
   \<and> makeNodeModulesPattern (Str ''@vue'') ''/proj/node_modules/@vue/reactivity/dist/index.js''
   \<and> map (\<lambda>g. (name g, priority g)) (configResolved empty_options [''vue''] {''vite:vue''}) =
       [(''vue'', 90), (''vue'', 80)]
   \<and> manualChunks (configResolved empty_options [''vue''] {''vite:vue''})
        ''/proj/node_modules/@vue/reactivity/dist/index.js'' = Some ''vendor''"
  by code_simp




text \<open>
  C3. With the custom group \<^verbatim>\<open>{ mylib: ['vue'] }\<close>, the balanced strategy (chosen or by
  default) and \<^verbatim>\<open>vue\<close> among the dependencies, whatever the hints are: the list holds the
  built-in matcher \<^verbatim>\<open>vue\<close> of priority 80, the custom matcher of priority 100 stands
  first, and every module id whose normalized form contains \<^verbatim>\<open>/node_modules/\<close> and
  matches the literal \<^verbatim>\<open>vue\<close> is resolved to \<^verbatim>\<open>mylib\<close>.
\<close>

theorem custom_group_wins_over_builtin:
  assumes "groups options = Some [(''mylib'', [Str ''vue''])]"
    and "strategy options = Some balanced \<or> strategy options = None"
    and "''vue'' \<in> set projectDeps"
    and "gs = buildGroupMatchers options projectDeps pluginHints"
    and "\<exists>u v. normalizeId id' = u @ ''/node_modules/'' @ v"
    and "makeNodeModulesPattern (Str ''vue'') (normalizeId id')"
  shows "(\<exists>g\<in>set gs. name g = ''vue'' \<and> priority g = 80)
    \<and> name (hd gs) = ''mylib'' \<and> priority (hd gs) = 100
    \<and> manualChunks gs id' = Some ''mylib''"
proof -
  let ?g = "some_tester ''mylib'' [makeNodeModulesPattern (Str ''vue'')] 100"
  let ?others = "buildGroupMatchers (options\<lparr>groups := None\<rparr>) projectDeps pluginHints"
  have opts: "options = options\<lparr>groups := Some [(''mylib'', [Str ''vue''])]\<rparr>"
    using assms(1) by simp
  have sorted: "Array_sort (\<lambda>a b. pattern_length b - pattern_length a) [Str ''vue''] =
      [Str ''vue'']"
    by (simp add: Array_sort_def)
  have gs: "gs = ?g # ?others"
    using build_single_custom [where ps = "[Str ''vue'']" and options = options
        and n = "''mylib''" and d = projectDeps and h = pluginHints]
      opts assms(4)
    by (simp add: sorted)
  have strat: "(case strategy options of Some s \<Rightarrow> s | None \<Rightarrow> balanced) = balanced"
    using assms(2) by auto
  have "hasAny projectDeps [''vue'', ''@vue/'']"
    unfolding hasAny_iff
  proof (intro bexI exI)
    show "''vue'' = [] @ strip_slashes ''vue'' @ []" by (simp add: strip_slashes_def)
    show "''vue'' \<in> set projectDeps" by (rule assms(3))
    show "''vue'' \<in> set [''vue'', ''@vue/'']" by simp
  qed
  moreover have "(''vue'', [''vue'', ''@vue/'']) \<in> set COMMON_LARGE_LIBS"
    by (simp add: COMMON_LARGE_LIBS_def)
  ultimately have "preset_matcher ''vue'' [''vue'', ''@vue/''] 80
      \<in> set (strategy_matchers balanced projectDeps)"
    by (force simp: strategy_matchers_def)
  then have "preset_matcher ''vue'' [''vue'', ''@vue/''] 80 \<in> set gs"
    unfolding assms(4) buildGroupMatchers_def set_Array_sort collected_matchers_def strat
    by simp
  then have a: "\<exists>g\<in>set gs. name g = ''vue'' \<and> priority g = 80"
    by (rule bexI [rotated]) (simp add: preset_matcher_def some_tester_def)
  have b: "name (hd gs) = ''mylib'' \<and> priority (hd gs) = 100"
    unfolding gs by (simp add: some_tester_def)
  have "RegExp_test node_modules_re (normalizeId id')"
    unfolding node_modules_test_iff by (rule assms(5))
  then have c: "manualChunks gs id' = Some ''mylib''"
    unfolding gs manualChunks_Cons test_some_tester name_some_tester
    using assms(6) by simp
  show ?thesis using a b c by blast
qed

theorem custom_group_wins_over_builtin_witness:
  "(\<exists>u v. normalizeId ''/proj/node_modules/vue/dist/vue.js'' = u @ ''/node_modules/'' @ v)
   \<and> makeNodeModulesPattern (Str ''vue'') (normalizeId ''/proj/node_modules/vue/dist/vue.js'')
   \<and> manualChunks
       (buildGroupMatchers
          (empty_options\<lparr>strategy := Some balanced, groups := Some [(''mylib'', [Str ''vue''])]\<rparr>)
          [''vue''] {''vue''})
       ''/proj/node_modules/vue/dist/vue.js'' = Some ''mylib''"
proof -
  have "RegExp_test node_modules_re (normalizeId ''/proj/node_modules/vue/dist/vue.js'')"
    by code_simp
  then have h5: "\<exists>u v. normalizeId ''/proj/node_modules/vue/dist/vue.js'' = u @ ''/node_modules/'' @ v"
    unfolding node_modules_test_iff .
  have h6: "makeNodeModulesPattern (Str ''vue'') (normalizeId ''/proj/node_modules/vue/dist/vue.js'')"
    by code_simp
  have h1: "groups (empty_options\<lparr>strategy := Some balanced,
      groups := Some [(''mylib'', [Str ''vue''])]\<rparr>) = Some [(''mylib'', [Str ''vue''])]"
    by simp
  have h2: "strategy (empty_options\<lparr>strategy := Some balanced,
      groups := Some [(''mylib'', [Str ''vue''])]\<rparr>) = Some balanced
      \<or> strategy (empty_options\<lparr>strategy := Some balanced,
      groups := Some [(''mylib'', [Str ''vue''])]\<rparr>) = None"
    by simp
  have h3: "''vue'' \<in> set [''vue'']" by simp
  show ?thesis
    using h5 h6 custom_group_wins_over_builtin
      [where pluginHints = "{''vue''}", OF h1 h2 h3 refl h5 h6]
    by blast
qed

text \<open>
  C4. A module id whose normalized form has no \<^verbatim>\<open>/node_modules/\<close> in it gets no
  classification, whatever the matcher list is, and so for the list built from any
  options, dependencies and hints.
\<close>

theorem no_node_modules_segment_unclassified:
  assumes "\<nexists>u v. normalizeId id' = u @ ''/node_modules/'' @ v"
  shows "manualChunks groupsRef id' = None
    \<and> manualChunks (buildGroupMatchers options projectDeps pluginHints) id' = None
    \<and> manualChunks (configResolved options projectDeps pluginNames) id' = None"
  using assms by (simp add: manualChunks_def node_modules_test_iff)

theorem no_node_modules_segment_unclassified_witness:
  "(\<nexists>u v. normalizeId ''/src/components/App.vue'' = u @ ''/node_modules/'' @ v)
   \<and> manualChunks
        (buildGroupMatchers (empty_options\<lparr>groups := Some [(''ui'', [Str ''vue''])]\<rparr>)
           [''vue''] {''vue''})
        ''/src/components/App.vue'' = None"
proof -
  have "\<not> RegExp_test node_modules_re (normalizeId ''/src/components/App.vue'')"
    by code_simp
  then have h: "\<nexists>u v. normalizeId ''/src/components/App.vue'' = u @ ''/node_modules/'' @ v"
    unfolding node_modules_test_iff .
  show ?thesis
    using h no_node_modules_segment_unclassified [OF h] by blast
qed

text \<open>
  C5. With the conservative strategy, no custom group, no hint and the dependencies
  \<^verbatim>\<open>vue\<close>, \<^verbatim>\<open>echarts\<close> and \<^verbatim>\<open>axios\<close> (in any order): the list is the matcher \<^verbatim>\<open>vue\<close> and
  the matcher \<^verbatim>\<open>echarts\<close>, both of priority 80, no matcher is named \<^verbatim>\<open>axios\<close>, and
  \<^verbatim>\<open>/p/node_modules/axios/index.js\<close> resolves to \<^verbatim>\<open>vendor\<close>. With no plugin that gives a
  hint, \<open>configResolved\<close> stores this list.
\<close>

theorem conservative_scenario:
  assumes "strategy options = Some conservative" and "groups options = None"
    and "set projectDeps = {''vue'', ''echarts'', ''axios''}"
    and "gs = buildGroupMatchers options projectDeps {}"
  shows "map (\<lambda>g. (name g, priority g)) gs = [(''vue'', 80), (''echarts'', 80)]
    \<and> ''axios'' \<notin> name ` set gs
    \<and> manualChunks gs ''/p/node_modules/axios/index.js'' = Some ''vendor''
    \<and> configResolved options projectDeps {} = gs"
proof -
  let ?o = "empty_options\<lparr>strategy := Some conservative\<rparr>"
  let ?d = "[''vue'', ''echarts'', ''axios'']"
  have "gs = buildGroupMatchers ?o ?d {}"
    unfolding assms(4)
  proof (rule build_preset_set [where strat = conservative])
    show "(case strategy options of Some s \<Rightarrow> s | None \<Rightarrow> balanced) = conservative"
      by (simp add: assms(1))
    show "(case strategy ?o of Some s \<Rightarrow> s | None \<Rightarrow> balanced) = conservative"
      by simp
    show "conservative \<noteq> aggressive" by simp
    show "groups options = groups ?o" by (simp add: assms(2) empty_options_def)
    show "set projectDeps = set ?d" unfolding assms(3) by auto
  qed
  moreover have "map (\<lambda>g. (name g, priority g)) (buildGroupMatchers ?o ?d {}) =
      [(''vue'', 80), (''echarts'', 80)]"
    by code_simp
  moreover have "manualChunks (buildGroupMatchers ?o ?d {}) ''/p/node_modules/axios/index.js'' =
      Some ''vendor''"
    by code_simp
  ultimately have a: "map (\<lambda>g. (name g, priority g)) gs = [(''vue'', 80), (''echarts'', 80)]"
    and c: "manualChunks gs ''/p/node_modules/axios/index.js'' = Some ''vendor''"
    by simp_all
  have "map name gs = map fst (map (\<lambda>g. (name g, priority g)) gs)" by simp
  then have mn: "map name gs = [''vue'', ''echarts'']" unfolding a by simp
  have "name ` set gs = set (map name gs)" by simp
  also have "\<dots> = {''vue'', ''echarts''}" unfolding mn by simp
  finally have b: "''axios'' \<notin> name ` set gs" by simp
  have "plugin_hints {} = {}" by (simp add: plugin_hints_def)
  then have d: "configResolved options projectDeps {} = gs"
    unfolding configResolved_def assms(4)
    using build_reads_strategy_groups [of "OPS_options options" options projectDeps "{}"]
    by (simp add: OPS_options_def assms(1))
  show ?thesis by (intro conjI) (rule a b c d)+
qed

theorem conservative_scenario_witness:
  "set [''axios'', ''vue'', ''echarts''] = {''vue'', ''echarts'', ''axios''}
   \<and> map (\<lambda>g. (name g, priority g))
       (buildGroupMatchers (empty_options\<lparr>strategy := Some conservative\<rparr>)
          [''axios'', ''vue'', ''echarts''] {}) = [(''vue'', 80), (''echarts'', 80)]
   \<and> manualChunks
       (buildGroupMatchers (empty_options\<lparr>strategy := Some conservative\<rparr>)
          [''axios'', ''vue'', ''echarts''] {})
       ''/p/node_modules/axios/index.js'' = Some ''vendor''"
proof -
  have h1: "strategy (empty_options\<lparr>strategy := Some conservative\<rparr>) = Some conservative"
    by simp
  have h2: "groups (empty_options\<lparr>strategy := Some conservative\<rparr>) = None"
    by (simp add: empty_options_def)
  have h3: "set [''axios'', ''vue'', ''echarts''] = {''vue'', ''echarts'', ''axios''}"
    by auto
  note t = conservative_scenario [OF h1 h2 h3 refl]
  from t have a: "map (\<lambda>g. (name g, priority g))
       (buildGroupMatchers (empty_options\<lparr>strategy := Some conservative\<rparr>)
          [''axios'', ''vue'', ''echarts''] {}) = [(''vue'', 80), (''echarts'', 80)]"
    by (elim conjE)
  from t have c: "manualChunks
       (buildGroupMatchers (empty_options\<lparr>strategy := Some conservative\<rparr>)
          [''axios'', ''vue'', ''echarts''] {})
       ''/p/node_modules/axios/index.js'' = Some ''vendor''"
    by (elim conjE)
  show ?thesis by (intro conjI) (rule h3 a c)+
qed

text \<open>
  C6. Under the aggressive strategy, with no custom group and no hint, and the
  dependencies \<^verbatim>\<open>a\<close>, \<^verbatim>\<open>b\<close> and \<^verbatim>\<open>@types/a\<close> iterated in any order: the builder returns two
  matchers, their names are \<^verbatim>\<open>a\<close> and \<^verbatim>\<open>b\<close>, both have priority 50, and none is named
  \<^verbatim>\<open>@types/a\<close>.
\<close>

theorem aggressive_skips_type_packages:
  assumes "distinct projectDeps" and "set projectDeps = {''a'', ''b'', ''@types/a''}"
    and "gs = buildGroupMatchers (options\<lparr>strategy := Some aggressive, groups := None\<rparr>)
                projectDeps {}"
  shows "length gs = 2 \<and> (\<lambda>g. (name g, priority g)) ` set gs = {(''a'', 50), (''b'', 50)}
    \<and> ''@types/a'' \<notin> name ` set gs"
proof -
  let ?keep = "filter (\<lambda>dep. \<not> startsWith dep ''@types/'') projectDeps"
  have gs: "gs = strategy_matchers aggressive projectDeps"
    unfolding assms(3) by (rule build_aggressive_only)
  have names: "map name gs = ?keep" unfolding gs by (rule name_aggressive)
  have pa: "\<not> startsWith ''a'' ''@types/''" by simp
  have pb: "\<not> startsWith ''b'' ''@types/''" by simp
  have pt: "startsWith ''@types/a'' ''@types/''" by simp
  have "set ?keep = {x \<in> {''a'', ''b'', ''@types/a''}. \<not> startsWith x ''@types/''}"
    using assms(2) by simp
  also have "\<dots> = {''a'', ''b''}"
    using pa pb pt by blast
  finally have keep_set: "set ?keep = {''a'', ''b''}" .
  have ab: "''a'' \<noteq> ''b''" by simp
  have "distinct ?keep" using assms(1) by simp
  then have "length ?keep = card (set ?keep)" by (rule distinct_card [symmetric])
  then have "length ?keep = 2" unfolding keep_set using ab by simp
  then have len: "length gs = 2"
    using arg_cong [OF names, of length] by simp
  have name_set: "name ` set gs = {''a'', ''b''}"
    using arg_cong [OF names, of set] keep_set by simp
  have prio: "\<forall>g\<in>set gs. priority g = 50"
    unfolding gs using priority_aggressive by blast
  have "(\<lambda>g. (name g, priority g)) ` set gs = (\<lambda>g. (name g, 50)) ` set gs"
    by (rule image_cong) (simp_all add: prio)
  also have "\<dots> = (\<lambda>n. (n, 50)) ` (name ` set gs)"
    by (simp add: image_image)
  also have "\<dots> = {(''a'', 50), (''b'', 50)}"
    unfolding name_set by simp
  finally have pairs:
    "(\<lambda>g. (name g, priority g)) ` set gs = {(''a'', 50), (''b'', 50)}" .
  have "''@types/a'' \<notin> name ` set gs" unfolding name_set by simp
  then show ?thesis using len pairs by blast
qed

theorem aggressive_skips_type_packages_witness:
  "distinct [''a'', ''b'', ''@types/a'']
   \<and> map (\<lambda>g. (name g, priority g))
       (buildGroupMatchers (empty_options\<lparr>strategy := Some aggressive, groups := None\<rparr>)
          [''a'', ''b'', ''@types/a''] {}) = [(''a'', 50), (''b'', 50)]
   \<and> length (buildGroupMatchers (empty_options\<lparr>strategy := Some aggressive, groups := None\<rparr>)
          [''a'', ''b'', ''@types/a''] {}) = 2"
proof -
  have h1: "distinct [''a'', ''b'', ''@types/a'']" by simp
  have h2: "set [''a'', ''b'', ''@types/a''] = {''a'', ''b'', ''@types/a''}" by simp
  have ev: "map (\<lambda>g. (name g, priority g))
       (buildGroupMatchers (empty_options\<lparr>strategy := Some aggressive, groups := None\<rparr>)
          [''a'', ''b'', ''@types/a''] {}) = [(''a'', 50), (''b'', 50)]"
    by code_simp
  have len: "length (buildGroupMatchers
      (empty_options\<lparr>strategy := Some aggressive, groups := None\<rparr>)
      [''a'', ''b'', ''@types/a''] {}) = 2"
    using aggressive_skips_type_packages [where options = empty_options, OF h1 h2 refl]
    by (rule conjunct1)
  show ?thesis by (intro conjI) (rule h1 ev len)+
qed

text \<open>
  C7. Two configurations that agree on everything but \<open>minSize\<close> give the same matcher
  list, from the builder and after the defaults of \<open>OPS\<close>, and so the same answer of the
  resolver for every module id.
\<close>

theorem minSize_has_no_effect:
  assumes "override o1 = override o2" and "strategy o1 = strategy o2"
    and "groups o1 = groups o2"
  shows "buildGroupMatchers o1 projectDeps pluginHints =
           buildGroupMatchers o2 projectDeps pluginHints
    \<and> configResolved o1 projectDeps pluginNames = configResolved o2 projectDeps pluginNames
    \<and> manualChunks (configResolved o1 projectDeps pluginNames) id' =
        manualChunks (configResolved o2 projectDeps pluginNames) id'"
  using assms
  by (simp add: buildGroupMatchers_def collected_matchers_def configResolved_def
      OPS_options_def)

theorem minSize_has_no_effect_witness:
  "buildGroupMatchers (empty_options\<lparr>minSize := Some 10\<rparr>) [''vue''] {} =
     buildGroupMatchers (empty_options\<lparr>minSize := Some 500\<rparr>) [''vue''] {}
   \<and> manualChunks (configResolved (empty_options\<lparr>minSize := Some 10\<rparr>) [''vue''] {})
        ''/p/node_modules/vue/index.js'' =
      manualChunks (configResolved (empty_options\<lparr>minSize := Some 500\<rparr>) [''vue''] {})
        ''/p/node_modules/vue/index.js''"
  using minSize_has_no_effect [of "empty_options\<lparr>minSize := Some 10\<rparr>"
      "empty_options\<lparr>minSize := Some 500\<rparr>" "[''vue'']" "{}" "{}"
      "''/p/node_modules/vue/index.js''"]
  by (simp add: empty_options_def)

text \<open>
  C8. The relevance test of a preset group is substring containment: some pattern of the
  group, its separators removed, occurs inside some dependency name. So with the
  balanced strategy (chosen or by default) and \<^verbatim>\<open>my-react-wrapper\<close> as the only
  dependency, whatever the custom groups and the hints are, the list holds the preset
  matcher \<^verbatim>\<open>react\<close> of priority 80, though neither \<^verbatim>\<open>react\<close> nor \<^verbatim>\<open>react-dom\<close> is a
  dependency; without custom groups and hints it is the only matcher.
\<close>

theorem substring_relevance_over_matches:
  assumes "strategy options = Some balanced \<or> strategy options = None"
    and "set projectDeps = {''my-react-wrapper''}"
  shows "(\<exists>g\<in>set (buildGroupMatchers options projectDeps pluginHints).
            name g = ''react'' \<and> priority g = 80)
    \<and> (groups options = None \<longrightarrow>
         map (\<lambda>g. (name g, priority g)) (buildGroupMatchers options projectDeps {}) =
           [(''react'', 80)])
    \<and> ''react'' \<notin> set projectDeps \<and> ''react-dom'' \<notin> set projectDeps
    \<and> (hasAny deps patterns \<longleftrightarrow>
         (\<exists>p\<in>set patterns. \<exists>dep\<in>set deps. \<exists>u v. dep = u @ strip_slashes p @ v))"
proof -
  let ?o = "empty_options\<lparr>strategy := Some balanced\<rparr>"
  let ?d = "[''my-react-wrapper'']"
  have strat: "(case strategy options of Some s \<Rightarrow> s | None \<Rightarrow> balanced) = balanced"
    using assms(1) by auto
  have "hasAny projectDeps [''react'', ''react-dom'']"
    unfolding hasAny_iff
  proof (intro bexI exI)
    show "''my-react-wrapper'' = ''my-'' @ strip_slashes ''react'' @ ''-wrapper''"
      by (simp add: strip_slashes_def)
    show "''my-react-wrapper'' \<in> set projectDeps" unfolding assms(2) by simp
    show "''react'' \<in> set [''react'', ''react-dom'']" by simp
  qed
  moreover have "(''react'', [''react'', ''react-dom'']) \<in> set COMMON_LARGE_LIBS"
    by (simp add: COMMON_LARGE_LIBS_def)
  ultimately have "preset_matcher ''react'' [''react'', ''react-dom''] 80
      \<in> set (strategy_matchers balanced projectDeps)"
    by (force simp: strategy_matchers_def)
  then have "preset_matcher ''react'' [''react'', ''react-dom''] 80
      \<in> set (buildGroupMatchers options projectDeps pluginHints)"
    unfolding buildGroupMatchers_def set_Array_sort collected_matchers_def strat
    by simp
  then have a: "\<exists>g\<in>set (buildGroupMatchers options projectDeps pluginHints).
      name g = ''react'' \<and> priority g = 80"
    by (rule bexI [rotated]) (simp add: preset_matcher_def some_tester_def)
  have ev: "map (\<lambda>g. (name g, priority g)) (buildGroupMatchers ?o ?d {}) = [(''react'', 80)]"
    by code_simp
  have b: "map (\<lambda>g. (name g, priority g)) (buildGroupMatchers options projectDeps {}) =
      [(''react'', 80)]" if none: "groups options = None"
  proof -
    have "buildGroupMatchers options projectDeps {} = buildGroupMatchers ?o ?d {}"
    proof (rule build_preset_set [where strat = balanced])
      show "(case strategy options of Some s \<Rightarrow> s | None \<Rightarrow> balanced) = balanced"
        by (rule strat)
      show "(case strategy ?o of Some s \<Rightarrow> s | None \<Rightarrow> balanced) = balanced" by simp
      show "balanced \<noteq> aggressive" by simp
      show "groups options = groups ?o" by (simp add: none empty_options_def)
      show "set projectDeps = set ?d" unfolding assms(2) by simp
    qed
    then show ?thesis using ev by simp
  qed
  have c: "''react'' \<notin> set projectDeps \<and> ''react-dom'' \<notin> set projectDeps"
    unfolding assms(2) by simp
  show ?thesis using a b c hasAny_iff [of deps patterns] by blast
qed

theorem substring_relevance_over_matches_witness:
  "set [''my-react-wrapper''] = {''my-react-wrapper''}
   \<and> map (\<lambda>g. (name g, priority g)) (buildGroupMatchers empty_options [''my-react-wrapper''] {})
      = [(''react'', 80)]"
proof -
  have h1: "strategy empty_options = Some balanced \<or> strategy empty_options = None"
    by (simp add: empty_options_def)
  have h2: "set [''my-react-wrapper''] = {''my-react-wrapper''}" by simp
  have h3: "groups empty_options = None" by (simp add: empty_options_def)
  note t = substring_relevance_over_matches
    [OF h1 h2, where pluginHints = "{}" and deps = "[]" and patterns = "[]"]
  from t have "groups empty_options = None \<longrightarrow>
      map (\<lambda>g. (name g, priority g)) (buildGroupMatchers empty_options [''my-react-wrapper''] {})
      = [(''react'', 80)]"
    by (elim conjE)
  then have ev: "map (\<lambda>g. (name g, priority g))
      (buildGroupMatchers empty_options [''my-react-wrapper''] {}) = [(''react'', 80)]"
    using h3 by (rule mp)
  show ?thesis by (intro conjI) (rule h2 ev)+
qed

text \<open>
  C9. The claim: the matchers of equal priority stand in the order in which they were
  appended, the custom groups first in declared order. The custom groups are appended in
  the order of \<^verbatim>\<open>Object.entries\<close>, which puts a name that is an array index before the other
  names: declared as \<^verbatim>\<open>{ b: ['lodash'], 1: ['axios'] }\<close>, the groups come out as \<^verbatim>\<open>1\<close>, \<^verbatim>\<open>b\<close>.
\<close>

theorem custom_groups_not_in_declared_order:
  "map (\<lambda>g. (name g, priority g))
     (buildGroupMatchers
        (empty_options\<lparr>groups := Some [(''b'', [Str ''lodash'']), (''1'', [Str ''axios''])]\<rparr>)
        [] {}) = [(''1'', 100), (''b'', 100)]
   \<and> map name
     (buildGroupMatchers
        (empty_options\<lparr>groups := Some [(''b'', [Str ''lodash'']), (''1'', [Str ''axios''])]\<rparr>)
        [] {}) \<noteq> map fst [(''b'', [Str ''lodash'']), (''1'', [Str ''axios''])]"
proof -
  have ev: "map (\<lambda>g. (name g, priority g))
     (buildGroupMatchers
        (empty_options\<lparr>groups := Some [(''b'', [Str ''lodash'']), (''1'', [Str ''axios''])]\<rparr>)
        [] {}) = [(''1'', 100), (''b'', 100)]"
    by code_simp
  have "map name
     (buildGroupMatchers
        (empty_options\<lparr>groups := Some [(''b'', [Str ''lodash'']), (''1'', [Str ''axios''])]\<rparr>)
        [] {}) = [''1'', ''b'']"
    using arg_cong [OF ev, of "map fst"] by (simp add: comp_def)
  then show ?thesis using ev by simp
qed

text \<open>
  C9, as amended. The list the builder returns is in order of non-increasing priority,
  and the matchers of any one priority stand in it as they stood in the array before the
  sort. That array is the custom groups, then the detected groups, then the groups of
  the strategy. The custom groups stand in the order of \<^verbatim>\<open>Object.entries\<close>: the names that
  are array indices first, in ascending numeric order, then the other names in the
  order of declaration; this is the declared order when no name is an array index and
  none is declared twice. The detected groups and the groups of a preset strategy keep
  the order of their table, which \<^verbatim>\<open>Object.entries\<close> does not change, and the groups of the
  aggressive strategy the order of the dependencies.
\<close>

theorem matchers_sorted_stable_entries_order:
  "sorted_wrt (\<lambda>a b. priority b \<le> priority a)
     (buildGroupMatchers options projectDeps pluginHints)
   \<and> (\<forall>p. filter (\<lambda>g. priority g = p) (buildGroupMatchers options projectDeps pluginHints) =
           filter (\<lambda>g. priority g = p) (collected_matchers options projectDeps pluginHints))
   \<and> collected_matchers options projectDeps pluginHints =
       custom_matchers (groups options) @ detected_matchers pluginHints @
       strategy_matchers (case strategy options of Some s \<Rightarrow> s | None \<Rightarrow> balanced) projectDeps
   \<and> map name (custom_matchers (Some declared)) =
       map fst (filter (\<lambda>e. snd e \<noteq> []) (Object_entries declared))
   \<and> map fst (Object_entries declared) =
       sort_key digits_value
         (filter is_array_index (rev (remdups (rev (map fst declared))))) @
       filter (\<lambda>k. \<not> is_array_index k) (rev (remdups (rev (map fst declared))))
   \<and> (distinct (map fst declared) \<and> (\<forall>k\<in>set (map fst declared). \<not> is_array_index k) \<longrightarrow>
       Object_entries declared = declared)
   \<and> map name (detected_matchers pluginHints) = map fst (detectedGroups pluginHints)
   \<and> Object_entries (detectedGroups pluginHints) = detectedGroups pluginHints
   \<and> Object_entries COMMON_LARGE_LIBS = COMMON_LARGE_LIBS
   \<and> Object_entries MEDIUM_LIB_GROUPS = MEDIUM_LIB_GROUPS
   \<and> map name (strategy_matchers aggressive projectDeps) =
       filter (\<lambda>dep. \<not> startsWith dep ''@types/'') projectDeps
   \<and> map name (strategy_matchers balanced projectDeps) =
       map fst (filter (\<lambda>(n, ps). hasAny projectDeps ps) COMMON_LARGE_LIBS) @
       map fst (filter (\<lambda>(n, ps). hasAny_medium projectDeps ps) MEDIUM_LIB_GROUPS)
   \<and> map name (strategy_matchers conservative projectDeps) =
       map fst (filter (\<lambda>(n, ps). n \<in> set veryLargeLibs \<and> hasAny projectDeps ps)
                  COMMON_LARGE_LIBS)"
proof -
  have a: "sorted_wrt (\<lambda>a b. priority b \<le> priority a)
      (buildGroupMatchers options projectDeps pluginHints)"
    unfolding buildGroupMatchers_def by (rule sorted_Array_sort_key)
  have b: "\<forall>p. filter (\<lambda>g. priority g = p) (buildGroupMatchers options projectDeps pluginHints) =
      filter (\<lambda>g. priority g = p) (collected_matchers options projectDeps pluginHints)"
    unfolding buildGroupMatchers_def by (simp add: stable_Array_sort_key)
  have c: "collected_matchers options projectDeps pluginHints =
       custom_matchers (groups options) @ detected_matchers pluginHints @
       strategy_matchers (case strategy options of Some s \<Rightarrow> s | None \<Rightarrow> balanced) projectDeps"
    by (simp add: collected_matchers_def)
  have d: "distinct (map fst declared) \<and> (\<forall>k\<in>set (map fst declared). \<not> is_array_index k) \<longrightarrow>
       Object_entries declared = declared"
    using Object_entries_plain [of declared] by blast
  show ?thesis
    by (intro conjI)
       (rule a b c d names_custom Object_entries_keys name_aggressive names_detected
          names_balanced names_conservative detectedGroups_keep_their_order
          large_table_keeps_its_order medium_table_keeps_its_order)+
qed

theorem matchers_sorted_stable_entries_order_witness:
  "map (\<lambda>g. (name g, priority g))
     (buildGroupMatchers
        (empty_options\<lparr>groups :=
           Some [(''b'', [Str ''lodash'']), (''1'', [Str ''axios'']), (''a'', [Str ''dayjs''])]\<rparr>)
        [''vue''] {''vue''}) =
     [(''1'', 100), (''b'', 100), (''a'', 100), (''vue'', 90), (''vue'', 80)]
   \<and> map name (filter (\<lambda>g. priority g = 100)
       (collected_matchers
          (empty_options\<lparr>groups :=
             Some [(''b'', [Str ''lodash'']), (''1'', [Str ''axios'']), (''a'', [Str ''dayjs''])]\<rparr>)
          [''vue''] {''vue''})) = [''1'', ''b'', ''a'']
   \<and> filter (\<lambda>g. priority g = 100)
       (buildGroupMatchers
          (empty_options\<lparr>groups :=
             Some [(''b'', [Str ''lodash'']), (''1'', [Str ''axios'']), (''a'', [Str ''dayjs''])]\<rparr>)
          [''vue''] {''vue''}) =
      filter (\<lambda>g. priority g = 100)
       (collected_matchers
          (empty_options\<lparr>groups :=
             Some [(''b'', [Str ''lodash'']), (''1'', [Str ''axios'']), (''a'', [Str ''dayjs''])]\<rparr>)
          [''vue''] {''vue''})
   \<and> distinct (map fst [(''b'', [Str ''lodash'']), (''a'', [Str ''dayjs''])])
   \<and> Object_entries [(''b'', [Str ''lodash'']), (''a'', [Str ''dayjs''])] =
       [(''b'', [Str ''lodash'']), (''a'', [Str ''dayjs''])]"
proof -
  let ?o = "empty_options\<lparr>groups :=
      Some [(''b'', [Str ''lodash'']), (''1'', [Str ''axios'']), (''a'', [Str ''dayjs''])]\<rparr>"
  let ?plain = "[(''b'', [Str ''lodash'']), (''a'', [Str ''dayjs''])]"
  note t = matchers_sorted_stable_entries_order
    [where options = ?o and projectDeps = "[''vue'']" and pluginHints = "{''vue''}"
      and declared = ?plain]
  have ev: "map (\<lambda>g. (name g, priority g)) (buildGroupMatchers ?o [''vue''] {''vue''}) =
     [(''1'', 100), (''b'', 100), (''a'', 100), (''vue'', 90), (''vue'', 80)]"
    by code_simp
  have ev2: "map name (filter (\<lambda>g. priority g = 100)
      (collected_matchers ?o [''vue''] {''vue''})) = [''1'', ''b'', ''a'']"
    by code_simp
  from t have "\<forall>p. filter (\<lambda>g. priority g = p) (buildGroupMatchers ?o [''vue''] {''vue''}) =
           filter (\<lambda>g. priority g = p) (collected_matchers ?o [''vue''] {''vue''})"
    by (elim conjE)
  then have st: "filter (\<lambda>g. priority g = 100) (buildGroupMatchers ?o [''vue''] {''vue''}) =
           filter (\<lambda>g. priority g = 100) (collected_matchers ?o [''vue''] {''vue''})"
    by (rule spec)
  have h1: "distinct (map fst ?plain)" by simp
  have nb: "\<not> is_array_index ''b''" by code_simp
  have na: "\<not> is_array_index ''a''" by code_simp
  have h2: "\<forall>k\<in>set (map fst ?plain). \<not> is_array_index k" using nb na by simp
  from t have "distinct (map fst ?plain) \<and> (\<forall>k\<in>set (map fst ?plain). \<not> is_array_index k) \<longrightarrow>
       Object_entries ?plain = ?plain"
    by (elim conjE)
  then have pl: "Object_entries ?plain = ?plain" using h1 h2 by blast
  show ?thesis by (intro conjI) (rule ev ev2 st h1 pl)+
qed

text \<open>
  C10. The resolver classifies a module id exactly when its normalized form contains
  \<^verbatim>\<open>/node_modules/\<close>, with the separator on both sides: \<^verbatim>\<open>node_modules/react/index.js\<close>
  has no separator before the segment and gets no classification, whatever the matcher
  list is.
\<close>

theorem unanchored_node_modules_unclassified:
  "(manualChunks groupsRef id' \<noteq> None \<longleftrightarrow>
      (\<exists>u v. normalizeId id' = u @ ''/node_modules/'' @ v))
   \<and> manualChunks groupsRef ''node_modules/react/index.js'' = None
   \<and> manualChunks (buildGroupMatchers options projectDeps pluginHints)
        ''node_modules/react/index.js'' = None"
proof -
  have a: "manualChunks gs i \<noteq> None \<longleftrightarrow> (\<exists>u v. normalizeId i = u @ ''/node_modules/'' @ v)"
    for gs i
    by (simp add: manualChunks_def node_modules_test_iff Let_def)
  have "\<not> RegExp_test node_modules_re (normalizeId ''node_modules/react/index.js'')"
    by code_simp
  then have b: "manualChunks gs ''node_modules/react/index.js'' = None" for gs
    by (simp add: manualChunks_def)
  show ?thesis using a b by blast
qed

theorem unanchored_node_modules_unclassified_witness:
  "manualChunks
     (buildGroupMatchers (empty_options\<lparr>strategy := Some aggressive\<rparr>) [''react''] {})
     ''node_modules/react/index.js'' = None"
  using unanchored_node_modules_unclassified
    [of "[]" "[]" "empty_options\<lparr>strategy := Some aggressive\<rparr>" "[''react'']" "{}"]
  by blast

end
